theory Spec2Isabelle
  imports Main "HOL-Library.Sublist"
begin

section \<open>Python strings\<close>

text \<open>
  The two packager scripts (\<^verbatim>\<open>deployment/homebrew/packager.py\<close>, called script A, and
  \<^verbatim>\<open>deployment/scoop/packager.py\<close>, called script B) only move strings around. A Python
  \<^verbatim>\<open>str\<close> is a sequence of Unicode code points, modelled as a list of natural numbers;
  \<open>str ''abc''\<close> is the string of an ASCII literal.
\<close>

type_synonym pystr = "nat list"

abbreviation str :: "string \<Rightarrow> pystr" where
  "str s \<equiv> map of_char s"

text \<open>
  \<^verbatim>\<open>str.isspace\<close> for one character: the code points CPython lists as whitespace
  (U+0009..U+000D, U+001C..U+0020, U+0085, U+00A0, U+1680, U+2000..U+200A, U+2028, U+2029,
  U+202F, U+205F, U+3000).
\<close>

definition isspace :: "nat \<Rightarrow> bool" where
  "isspace c =
     ((9 \<le> c \<and> c \<le> 13) \<or> (28 \<le> c \<and> c \<le> 32) \<or> c = 133 \<or> c = 160 \<or>
      c = 5760 \<or> (8192 \<le> c \<and> c \<le> 8202) \<or> c = 8232 \<or> c = 8233 \<or>
      c = 8239 \<or> c = 8287 \<or> c = 12288)"

text \<open>
  \<^verbatim>\<open>s.strip()\<close> with no argument: the left index moves right over whitespace, then the
  right index moves left over whitespace (never past the left one), and the slice between
  them is returned.
\<close>

definition lstrip :: "pystr \<Rightarrow> pystr" where
  "lstrip s = dropWhile isspace s"

definition rstrip :: "pystr \<Rightarrow> pystr" where
  "rstrip s = rev (dropWhile isspace (rev s))"

definition strip :: "pystr \<Rightarrow> pystr" where
  "strip s = rstrip (lstrip s)"

text \<open>
  \<^verbatim>\<open>s.replace(old, new)\<close>: every non-overlapping occurrence of \<open>old\<close>, found from left to
  right, is replaced by \<open>new\<close>. For an empty \<open>old\<close> Python puts \<open>new\<close> before every character
  and at the end.
\<close>

fun replace_scan :: "pystr \<Rightarrow> pystr \<Rightarrow> pystr \<Rightarrow> pystr" where
  "replace_scan old new [] = []"
| "replace_scan old new (c # s) =
     (if old \<noteq> [] \<and> prefix old (c # s)
      then new @ replace_scan old new (drop (length old) (c # s))
      else c # replace_scan old new s)"

definition replace :: "pystr \<Rightarrow> pystr \<Rightarrow> pystr \<Rightarrow> pystr" where
  "replace old new s =
     (if old = [] then new @ concat (map (\<lambda>c. c # new) s) else replace_scan old new s)"

section \<open>Errors and positional arguments\<close>

text \<open>
  Neither script catches anything, so every exception ends the run. \<open>OSError\<close> carries the
  path whose \<^verbatim>\<open>open\<close> failed (\<^verbatim>\<open>FileNotFoundError\<close> and \<^verbatim>\<open>PermissionError\<close> are
  subclasses of it); \<open>ValueError\<close> is the one \<^verbatim>\<open>raise\<close> inside \<^verbatim>\<open>string.Template\<close>.
\<close>

datatype error = IndexError | OSError pystr | ValueError

definition and_then :: "error + 'a \<Rightarrow> ('a \<Rightarrow> error + 'b) \<Rightarrow> error + 'b" where
  "and_then x f = (case x of Inl e \<Rightarrow> Inl e | Inr v \<Rightarrow> f v)"

text \<open>\<^verbatim>\<open>args[i]\<close> for a literal index \<open>i \<ge> 0\<close>: \<^verbatim>\<open>IndexError\<close> when the list is too short.\<close>

definition getitem :: "pystr list \<Rightarrow> nat \<Rightarrow> error + pystr" where
  "getitem xs i = (if i < length xs then Inr (xs ! i) else Inl IndexError)"

text \<open>
  Lines 5 to 13 of script A. \<open>args\<close> is \<^verbatim>\<open>sys.argv\<close>, so \<open>args ! 0\<close> is the script's own
  name and the six positional values are \<open>args ! 1\<close> to \<open>args ! 6\<close>.
\<close>

record params_A =
  version :: pystr
  template_file_path :: pystr
  generated_file_path :: pystr
  hash_mac :: pystr
  hash_mac_arm :: pystr
  hash_linux :: pystr

definition read_args_A :: "pystr list \<Rightarrow> error + params_A" where
  "read_args_A args =
     and_then (getitem args 1) (\<lambda>a1.
     and_then (getitem args 2) (\<lambda>a2.
     and_then (getitem args 3) (\<lambda>a3.
     and_then (getitem args 4) (\<lambda>a4.
     and_then (getitem args 5) (\<lambda>a5.
     and_then (getitem args 6) (\<lambda>a6.
       Inr \<lparr>version = a1, template_file_path = a2, generated_file_path = a3,
            hash_mac = strip a4, hash_mac_arm = strip a5, hash_linux = strip a6\<rparr>))))))"

text \<open>
  Lines 5 to 11 of script B; the two path fields carry a suffix because script A's record
  already has fields of the source's names.
\<close>

record params_B =
  version64 :: pystr
  template_file_path_B :: pystr
  generated_file_path_B :: pystr
  hash_64 :: pystr

definition read_args_B :: "pystr list \<Rightarrow> error + params_B" where
  "read_args_B args =
     and_then (getitem args 1) (\<lambda>a1.
     and_then (getitem args 2) (\<lambda>a2.
     and_then (getitem args 3) (\<lambda>a3.
     and_then (getitem args 4) (\<lambda>a4.
       Inr \<lparr>version64 = replace (str ''v'') (str '''') a1, template_file_path_B = a2,
            generated_file_path_B = a3, hash_64 = strip a4\<rparr>))))"

section \<open>string.Template\<close>

text \<open>
  \<^verbatim>\<open>string.Template\<close> of the standard library (CPython 3.7 and later) compiles, with the
  flags \<^verbatim>\<open>IGNORECASE | VERBOSE\<close>, the pattern
  \<^verbatim>\<open>\$(?:(?P<escaped>\$) | (?P<named>(?a:[_a-z][_a-z0-9]*)) | {(?P<braced>(?a:[_a-z][_a-z0-9]*))} | (?P<invalid>))\<close>
  and \<^verbatim>\<open>safe_substitute\<close> is \<^verbatim>\<open>pattern.sub(convert, template)\<close>.
  An identifier is ASCII only (the \<^verbatim>\<open>(?a:...)\<close> group) and, the match ignoring case, may
  hold capitals.
\<close>

definition is_id_start :: "nat \<Rightarrow> bool" where
  "is_id_start c = (c = 95 \<or> (97 \<le> c \<and> c \<le> 122) \<or> (65 \<le> c \<and> c \<le> 90))"

definition is_id_char :: "nat \<Rightarrow> bool" where
  "is_id_char c = (is_id_start c \<or> (48 \<le> c \<and> c \<le> 57))"

text \<open>The identifier pattern at the start of a text: the identifier (greedy) and the rest.\<close>

definition match_id :: "pystr \<Rightarrow> (pystr \<times> pystr) option" where
  "match_id s =
     (case s of
        [] \<Rightarrow> None
      | c # r \<Rightarrow>
          if is_id_start c then Some (c # takeWhile is_id_char r, dropWhile is_id_char r)
          else None)"

text \<open>
  The alternatives after the delimiter \<open>$\<close> (code point 36), each on the text that follows
  it; \<open>{\<close> is 123 and \<open>}\<close> is 125. No shorter identifier can make the braced alternative
  match when the longest one is not followed by \<open>}\<close>, since what follows a shorter one is
  an identifier character.
\<close>

definition alt_escaped :: "pystr \<Rightarrow> (pystr \<times> pystr) option" where
  "alt_escaped r = (case r of [] \<Rightarrow> None | d # r' \<Rightarrow> if d = 36 then Some ([36], r') else None)"

definition alt_named :: "pystr \<Rightarrow> (pystr \<times> pystr) option" where
  "alt_named r = match_id r"

definition alt_braced :: "pystr \<Rightarrow> (pystr \<times> pystr) option" where
  "alt_braced r =
     (case r of
        [] \<Rightarrow> None
      | b # r1 \<Rightarrow>
          if b = 123 then
            (case match_id r1 of
               None \<Rightarrow> None
             | Some (n, r2) \<Rightarrow>
                 (case r2 of [] \<Rightarrow> None | e # r3 \<Rightarrow> if e = 125 then Some (n, r3) else None))
          else None)"

text \<open>A match object: the whole match (\<^verbatim>\<open>mo.group()\<close>) and the four named groups.\<close>

record match_object =
  group0 :: pystr
  escaped :: "pystr option"
  named :: "pystr option"
  braced :: "pystr option"
  invalid :: "pystr option"

text \<open>
  The pattern tried at the start of a text: the match object and the text after the match.
  The alternatives are tried in the order the pattern lists them; the last one matches the
  empty string, so every \<open>$\<close> starts a match.
\<close>

definition pattern_match :: "pystr \<Rightarrow> (match_object \<times> pystr) option" where
  "pattern_match s =
     (case s of
        [] \<Rightarrow> None
      | c # r \<Rightarrow>
          if c \<noteq> 36 then None
          else
            (case alt_escaped r of
               Some (g, rest) \<Rightarrow>
                 Some (\<lparr>group0 = 36 # g, escaped = Some g, named = None, braced = None,
                        invalid = None\<rparr>, rest)
             | None \<Rightarrow>
                 (case alt_named r of
                    Some (n, rest) \<Rightarrow>
                      Some (\<lparr>group0 = 36 # n, escaped = None, named = Some n, braced = None,
                             invalid = None\<rparr>, rest)
                  | None \<Rightarrow>
                      (case alt_braced r of
                         Some (n, rest) \<Rightarrow>
                           Some (\<lparr>group0 = 36 # 123 # n @ [125], escaped = None,
                                  named = None, braced = Some n, invalid = None\<rparr>, rest)
                       | None \<Rightarrow>
                           Some (\<lparr>group0 = [36], escaped = None, named = None,
                                  braced = None, invalid = Some []\<rparr>, r)))))"

text \<open>
  \<^verbatim>\<open>a or b\<close> on two groups: \<open>a\<close> when it is truthy (matched and not empty), else \<open>b\<close>.
\<close>

definition py_or :: "pystr option \<Rightarrow> pystr option \<Rightarrow> pystr option" where
  "py_or a b = (case a of None \<Rightarrow> b | Some s \<Rightarrow> if s \<noteq> [] then a else b)"

text \<open>
  The helper \<^verbatim>\<open>convert\<close> of \<^verbatim>\<open>safe_substitute\<close>: a name found in the mapping gives its
  value, a name not found (\<^verbatim>\<open>KeyError\<close>) gives the match back, an escape gives the
  delimiter, an invalid match gives the match back, and anything else raises.
\<close>

definition convert :: "(pystr \<rightharpoonup> pystr) \<Rightarrow> match_object \<Rightarrow> error + pystr" where
  "convert mapping mo =
     (case py_or (named mo) (braced mo) of
        Some name \<Rightarrow>
          (case mapping name of Some v \<Rightarrow> Inr v | None \<Rightarrow> Inr (group0 mo))
      | None \<Rightarrow>
          if escaped mo \<noteq> None then Inr [36]
          else if invalid mo \<noteq> None then Inr (group0 mo)
          else Inl ValueError)"

lemma match_id_shorter: "match_id s = Some (n, rest) \<Longrightarrow> length rest < length s"
  by (cases s) (auto simp: match_id_def le_imp_less_Suc length_dropWhile_le split: if_splits)

lemma alt_braced_shorter: "alt_braced r = Some (n, rest) \<Longrightarrow> length rest < length r"
  by (cases r)
     (auto simp: alt_braced_def split: if_splits option.splits list.splits
           dest!: match_id_shorter)

lemma pattern_match_shorter: "pattern_match s = Some (mo, rest) \<Longrightarrow> length rest < length s"
  by (cases s)
     (auto simp: pattern_match_def alt_escaped_def alt_named_def
           split: if_splits option.splits list.splits
           dest!: match_id_shorter alt_braced_shorter)

text \<open>
  \<^verbatim>\<open>pattern.sub(repl, s)\<close>: from left to right, a match is replaced by what \<open>repl\<close> returns
  for it and the scan goes on after the match; a character where the pattern does not
  match is copied. An exception of \<open>repl\<close> ends the substitution.
\<close>

function sub :: "(match_object \<Rightarrow> error + pystr) \<Rightarrow> pystr \<Rightarrow> error + pystr" where
  "sub repl s =
     (case pattern_match s of
        Some (mo, rest) \<Rightarrow>
          (case repl mo of
             Inl e \<Rightarrow> Inl e
           | Inr out \<Rightarrow> (case sub repl rest of Inl e \<Rightarrow> Inl e | Inr t \<Rightarrow> Inr (out @ t)))
      | None \<Rightarrow>
          (case s of
             [] \<Rightarrow> Inr []
           | c # r \<Rightarrow> (case sub repl r of Inl e \<Rightarrow> Inl e | Inr t \<Rightarrow> Inr (c # t))))"
  by pat_completeness auto
termination
  by (relation "measure (\<lambda>(repl, s). length s)") (auto dest: pattern_match_shorter)

text \<open>
  \<^verbatim>\<open>Template(template).safe_substitute(**kws)\<close>: the mapping is the dictionary of the
  keyword arguments, kept here as the list of its items in the order the call writes them.
\<close>

definition safe_substitute :: "(pystr \<times> pystr) list \<Rightarrow> pystr \<Rightarrow> error + pystr" where
  "safe_substitute kws template = sub (convert (map_of kws)) template"

section \<open>Files and standard output\<close>

text \<open>
  What a run can see and change: the text of every existing file, which paths can be
  opened for reading and for writing, and the record of what the run did so far (each
  \<^verbatim>\<open>print\<close>, each \<^verbatim>\<open>open\<close> that was called, each \<^verbatim>\<open>write\<close> on a file).
  The text of a file is the \<^verbatim>\<open>str\<close> that \<^verbatim>\<open>read()\<close> returns and \<^verbatim>\<open>write\<close> takes: the
  encoding and the translation of line ends are not modelled, and \<^verbatim>\<open>print\<close> is taken
  to succeed.
\<close>

datatype event = Print pystr | OpenRead pystr | OpenWrite pystr | Write pystr pystr

record world =
  files :: "pystr \<rightharpoonup> pystr"
  readable :: "pystr \<Rightarrow> bool"
  writable :: "pystr \<Rightarrow> bool"
  events :: "event list"

definition emit :: "event \<Rightarrow> world \<Rightarrow> world" where
  "emit ev w = w\<lparr>events := events w @ [ev]\<rparr>"

definition print :: "pystr \<Rightarrow> world \<Rightarrow> world" where
  "print s w = emit (Print s) w"

text \<open>
  \<^verbatim>\<open>open(path, "r")\<close> followed by \<^verbatim>\<open>read()\<close>: the whole text of the file, or \<open>OSError\<close>
  when the file does not exist or cannot be read. Nothing is changed but the record.
\<close>

definition open_read :: "pystr \<Rightarrow> world \<Rightarrow> (error + pystr) \<times> world" where
  "open_read path w =
     (case files w path of
        None \<Rightarrow> (Inl (OSError path), emit (OpenRead path) w)
      | Some content \<Rightarrow>
          if readable w path then (Inr content, emit (OpenRead path) w)
          else (Inl (OSError path), emit (OpenRead path) w))"

text \<open>
  \<^verbatim>\<open>open(path, "w")\<close>: the file is created or truncated, or \<open>OSError\<close> when the path
  cannot be opened for writing.
\<close>

definition open_write :: "pystr \<Rightarrow> world \<Rightarrow> (error + unit) \<times> world" where
  "open_write path w =
     (if writable w path
      then (Inr (), (emit (OpenWrite path) w)\<lparr>files := (files w)(path \<mapsto> [])\<rparr>)
      else (Inl (OSError path), emit (OpenWrite path) w))"

text \<open>\<^verbatim>\<open>f.write(data)\<close> on a file opened for writing: the data is appended.\<close>

definition file_write :: "pystr \<Rightarrow> pystr \<Rightarrow> world \<Rightarrow> world" where
  "file_write path data w =
     (emit (Write path data) w)
       \<lparr>files := (files w)(path \<mapsto> (case files w path of None \<Rightarrow> data | Some old \<Rightarrow> old @ data))\<rparr>"

section \<open>The two scripts\<close>

text \<open>The keyword arguments of line 25 of script A.\<close>

definition kwargs_A :: "params_A \<Rightarrow> (pystr \<times> pystr) list" where
  "kwargs_A p =
     [(str ''version'', version p), (str ''hash_mac'', hash_mac p),
      (str ''hash_mac_arm'', hash_mac_arm p), (str ''hash_linux'', hash_linux p)]"

text \<open>The keyword arguments of line 21 of script B.\<close>

definition kwargs_B :: "params_B \<Rightarrow> (pystr \<times> pystr) list" where
  "kwargs_B p = [(str ''version64'', version64 p), (str ''hash_64'', hash_64 p)]"

text \<open>
  The rendered text of a template for an argument list: the source's variable
  \<^verbatim>\<open>substitute\<close>, as a function of \<^verbatim>\<open>sys.argv\<close> and of the template's text.
\<close>

definition substitute_A :: "pystr list \<Rightarrow> pystr \<Rightarrow> error + pystr" where
  "substitute_A args template =
     and_then (read_args_A args) (\<lambda>p. safe_substitute (kwargs_A p) template)"

definition substitute_B :: "pystr list \<Rightarrow> pystr \<Rightarrow> error + pystr" where
  "substitute_B args template =
     and_then (read_args_B args) (\<lambda>p. safe_substitute (kwargs_B p) template)"

definition banner_top :: pystr where
  "banner_top = str ''\<newline>================== Generated package file ==================\<newline>''"

definition banner_bottom :: pystr where
  "banner_bottom = str ''\<newline>============================================================\<newline>''"

text \<open>
  Script A, statement by statement: the arguments (lines 5 to 13), the summary (15 to 21),
  the template read (23, 24), the substitution (25), the rendered text between its banners
  (26 to 28), the output file opened and written (30, 31).
\<close>

definition script_A :: "pystr list \<Rightarrow> world \<Rightarrow> (error + unit) \<times> world" where
  "script_A args w =
     (case read_args_A args of
        Inl e \<Rightarrow> (Inl e, w)
      | Inr p \<Rightarrow>
          (let w1 = print (str ''     LINUX HASH: '' @ hash_linux p)
                   (print (str ''     MAC ARM HASH: '' @ hash_mac_arm p)
                   (print (str ''     MAC HASH: '' @ hash_mac p)
                   (print (str ''     SAVING AT: '' @ generated_file_path p)
                   (print (str ''     TEMPLATE PATH: '' @ template_file_path p)
                   (print (str ''     VERSION: '' @ version p)
                   (print (str ''Generating formula'') w))))))
           in
             (case open_read (template_file_path p) w1 of
                (Inl e, w2) \<Rightarrow> (Inl e, w2)
              | (Inr template, w2) \<Rightarrow>
                  (case safe_substitute (kwargs_A p) template of
                     Inl e \<Rightarrow> (Inl e, w2)
                   | Inr substitute \<Rightarrow>
                       (let w3 = print banner_bottom (print substitute (print banner_top w2))
                        in
                          (case open_write (generated_file_path p) w3 of
                             (Inl e, w4) \<Rightarrow> (Inl e, w4)
                           | (Inr u, w4) \<Rightarrow>
                               (Inr (), file_write (generated_file_path p) substitute w4)))))))"

text \<open>Script B, in the same way (lines 5 to 11, 13 to 17, 19 to 21, 22 to 24, 26 and 27).\<close>

definition script_B :: "pystr list \<Rightarrow> world \<Rightarrow> (error + unit) \<times> world" where
  "script_B args w =
     (case read_args_B args of
        Inl e \<Rightarrow> (Inl e, w)
      | Inr p \<Rightarrow>
          (let w1 = print (str ''     HASH: '' @ hash_64 p)
                   (print (str ''     SAVING AT: '' @ generated_file_path_B p)
                   (print (str ''     TEMPLATE PATH: '' @ template_file_path_B p)
                   (print (str ''     VERSION: '' @ version64 p)
                   (print (str ''Generating formula'') w))))
           in
             (case open_read (template_file_path_B p) w1 of
                (Inl e, w2) \<Rightarrow> (Inl e, w2)
              | (Inr template, w2) \<Rightarrow>
                  (case safe_substitute (kwargs_B p) template of
                     Inl e \<Rightarrow> (Inl e, w2)
                   | Inr substitute \<Rightarrow>
                       (let w3 = print banner_bottom (print substitute (print banner_top w2))
                        in
                          (case open_write (generated_file_path_B p) w3 of
                             (Inl e, w4) \<Rightarrow> (Inl e, w4)
                           | (Inr u, w4) \<Rightarrow>
                               (Inr (), file_write (generated_file_path_B p) substitute w4)))))))"

section \<open>What the rendered text should be\<close>

text \<open>
  The specification describes the rendered text without any regular expression: the
  template is read from left to right, a recognized placeholder standing at the current
  position is replaced by its value, and everything else is copied. The definitions of
  this section follow those words; the theorems below compare them with
  \<open>safe_substitute\<close>.

  A keyword of a Python call is an identifier.
\<close>

definition is_identifier :: "pystr \<Rightarrow> bool" where
  "is_identifier k = (case k of [] \<Rightarrow> False | c # r \<Rightarrow> is_id_start c \<and> list_all is_id_char r)"

text \<open>\<open>strip_prefix p s\<close> is what follows \<open>p\<close> in \<open>s\<close>, when \<open>s\<close> starts with \<open>p\<close>.\<close>

definition strip_prefix :: "pystr \<Rightarrow> pystr \<Rightarrow> pystr option" where
  "strip_prefix p s = (if prefix p s then Some (drop (length p) s) else None)"

text \<open>
  The two spellings of the placeholder of a name \<open>k\<close> at the start of a text: \<open>$k\<close>, where
  the name ends (no identifier character follows), and \<open>${k}\<close>. Each gives the text after
  the placeholder.
\<close>

definition named_form :: "pystr \<Rightarrow> pystr \<Rightarrow> pystr option" where
  "named_form k s =
     (case strip_prefix (36 # k) s of
        None \<Rightarrow> None
      | Some rest \<Rightarrow>
          (case rest of
             [] \<Rightarrow> Some rest
           | d # r \<Rightarrow> if is_id_char d then None else Some rest))"

definition braced_form :: "pystr \<Rightarrow> pystr \<Rightarrow> pystr option" where
  "braced_form k s = strip_prefix (36 # 123 # k @ [125]) s"

lemma strip_prefix_iff: "strip_prefix p s = Some rest \<longleftrightarrow> s = p @ rest"
  by (auto simp: strip_prefix_def prefix_def)

lemma named_form_iff:
  "named_form k s = Some rest \<longleftrightarrow> (s = 36 # k @ rest \<and> (rest = [] \<or> \<not> is_id_char (hd rest)))"
proof (cases "strip_prefix (36 # k) s")
  case None
  then have "s \<noteq> (36 # k) @ rest" using strip_prefix_iff[of "36 # k" s rest] by simp
  with None show ?thesis by (simp add: named_form_def)
next
  case (Some t)
  then have "s = (36 # k) @ t" by (simp add: strip_prefix_iff)
  with Some show ?thesis by (cases t) (auto simp: named_form_def)
qed

lemma braced_form_iff: "braced_form k s = Some rest \<longleftrightarrow> s = 36 # 123 # k @ 125 # rest"
  by (simp add: braced_form_def strip_prefix_iff)

text \<open>
  The recognized placeholder standing at the start of a text, if any: the value that
  replaces it and the text after it.
\<close>

fun placeholder_at :: "(pystr \<times> pystr) list \<Rightarrow> pystr \<Rightarrow> (pystr \<times> pystr) option" where
  "placeholder_at [] s = None"
| "placeholder_at ((k, v) # kvs) s =
     (case named_form k s of
        Some rest \<Rightarrow> Some (v, rest)
      | None \<Rightarrow>
          (case braced_form k s of
             Some rest \<Rightarrow> Some (v, rest)
           | None \<Rightarrow> placeholder_at kvs s))"

lemma placeholder_at_shorter:
  "placeholder_at kvs s = Some (v, rest) \<Longrightarrow> length rest < length s"
proof (induction kvs)
  case Nil
  then show ?case by simp
next
  case (Cons kv kvs)
  obtain k v' where kv: "kv = (k, v')" by (cases kv)
  show ?case
  proof (cases "named_form k s")
    case (Some r)
    with Cons.prems kv have "s = 36 # k @ rest" by (simp add: named_form_iff)
    then show ?thesis by simp
  next
    case None
    show ?thesis
    proof (cases "braced_form k s")
      case (Some r)
      with None Cons.prems kv have "s = 36 # 123 # k @ 125 # rest" by (simp add: braced_form_iff)
      then show ?thesis by simp
    next
      case None': None
      with None Cons.prems kv have "placeholder_at kvs s = Some (v, rest)" by simp
      then show ?thesis by (rule Cons.IH)
    qed
  qed
qed

text \<open>
  The template with every \<open>$$\<close> turned into \<open>$\<close>, every recognized placeholder replaced by
  its value and every other character copied.
\<close>

function replace_placeholders :: "(pystr \<times> pystr) list \<Rightarrow> pystr \<Rightarrow> pystr" where
  "replace_placeholders kvs [] = []"
| "replace_placeholders kvs (c # r) =
     (if prefix [36, 36] (c # r) then 36 # replace_placeholders kvs (tl r)
      else
        (case placeholder_at kvs (c # r) of
           Some (v, rest) \<Rightarrow> v @ replace_placeholders kvs rest
         | None \<Rightarrow> c # replace_placeholders kvs r))"
  by pat_completeness auto
termination
  by (relation "measure (\<lambda>(kvs, s). length s)")
     (auto dest: placeholder_at_shorter simp: less_Suc_eq_le)

text \<open>
  The same with no escape: recognized placeholders are replaced and every other character,
  a \<open>$\<close> of \<open>$$\<close> too, is copied.
\<close>

function replace_verbatim :: "(pystr \<times> pystr) list \<Rightarrow> pystr \<Rightarrow> pystr" where
  "replace_verbatim kvs [] = []"
| "replace_verbatim kvs (c # r) =
     (case placeholder_at kvs (c # r) of
        Some (v, rest) \<Rightarrow> v @ replace_verbatim kvs rest
      | None \<Rightarrow> c # replace_verbatim kvs r)"
  by pat_completeness auto
termination
  by (relation "measure (\<lambda>(kvs, s). length s)")
     (auto dest: placeholder_at_shorter simp: less_Suc_eq_le)

text \<open>
  The recognized placeholders of each script, each with the processed argument it stands
  for (the positions are those of \<^verbatim>\<open>sys.argv\<close>).
\<close>

definition placeholders_A :: "pystr list \<Rightarrow> (pystr \<times> pystr) list" where
  "placeholders_A args =
     [(str ''version'', args ! 1), (str ''hash_mac'', strip (args ! 4)),
      (str ''hash_mac_arm'', strip (args ! 5)), (str ''hash_linux'', strip (args ! 6))]"

definition placeholders_B :: "pystr list \<Rightarrow> (pystr \<times> pystr) list" where
  "placeholders_B args =
     [(str ''version64'', replace (str ''v'') (str '''') (args ! 1)),
      (str ''hash_64'', strip (args ! 4))]"

text \<open>A text with every \<open>$$\<close>, read from left to right, turned into a single \<open>$\<close>.\<close>

fun unescape :: "pystr \<Rightarrow> pystr" where
  "unescape (a # b # r) = (if a = 36 \<and> b = 36 then 36 # unescape r else a # unescape (b # r))"
| "unescape s = s"

text \<open>No recognized placeholder stands at any position of the text.\<close>

fun placeholder_free :: "(pystr \<times> pystr) list \<Rightarrow> pystr \<Rightarrow> bool" where
  "placeholder_free kvs [] = True"
| "placeholder_free kvs (c # r) = (placeholder_at kvs (c # r) = None \<and> placeholder_free kvs r)"


text \<open>
  A file system holding the given files, all readable and every path writable, before
  anything has run.
\<close>

definition new_world :: "(pystr \<times> pystr) list \<Rightarrow> world" where
  "new_world fs = \<lparr>files = map_of fs, readable = (\<lambda>p. True), writable = (\<lambda>p. True), events = []\<rparr>"

text \<open>
  A file system that has seen an earlier run: two template files, an output file with old
  text in it, and something already printed.
\<close>

definition used_world :: world where
  "used_world =
     \<lparr>files = map_of [(str ''t'', str ''${version} ${hash_mac}''), (str ''o'', str ''old text''),
                       (str ''t64'', str ''${version64} ${hash_64}'')],
      readable = (\<lambda>p. True), writable = (\<lambda>p. True),
      events = [Print (str ''an earlier run'')]\<rparr>"

section \<open>The substitution computes the replaced text\<close>

text \<open>
  The equation of \<open>sub\<close> has the function on both sides and no pattern on the left, so it
  is unfolded by hand, once for each shape of the text.
\<close>

declare sub.simps [simp del]

lemma id_start_is_id_char: "is_id_start c \<Longrightarrow> is_id_char c"
  by (simp add: is_id_char_def)

lemma not_id_char_specials: "\<not> is_id_char 36" "\<not> is_id_char 123" "\<not> is_id_char 125"
  "\<not> is_id_start 36" "\<not> is_id_start 123" "\<not> is_id_start 125"
  by (simp_all add: is_id_char_def is_id_start_def)

lemma takeWhile_dropWhile_split:
  "list_all P k \<Longrightarrow> rest = [] \<or> \<not> P (hd rest) \<Longrightarrow>
     takeWhile P (k @ rest) = k \<and> dropWhile P (k @ rest) = rest"
  by (induction k) (cases rest; auto)+

lemma match_id_iff:
  "match_id r = Some (n, rest) \<longleftrightarrow>
     (r \<noteq> [] \<and> is_id_start (hd r) \<and> takeWhile is_id_char r = n \<and> dropWhile is_id_char r = rest)"
  by (cases r) (auto simp: match_id_def id_start_is_id_char)

lemma match_id_identifier:
  assumes "is_identifier k" and "rest = [] \<or> \<not> is_id_char (hd rest)"
  shows "match_id (k @ rest) = Some (k, rest)"
proof -
  from assms(1) obtain c k' where k: "k = c # k'" and c: "is_id_start c" and k': "list_all is_id_char k'"
    by (auto simp: is_identifier_def split: list.splits)
  have "list_all is_id_char k" using k c k' by (simp add: id_start_is_id_char)
  from takeWhile_dropWhile_split[OF this assms(2)] k c show ?thesis
    by (simp add: match_id_iff)
qed

lemma match_id_decompose:
  assumes "match_id r = Some (n, rest)"
  shows "r = n @ rest \<and> is_identifier n \<and> (rest = [] \<or> \<not> is_id_char (hd rest))"
proof -
  from assms have r: "r \<noteq> []" "is_id_start (hd r)" and n: "takeWhile is_id_char r = n"
    and rest: "dropWhile is_id_char r = rest"
    by (simp_all add: match_id_iff)
  have "r = n @ rest" using n rest takeWhile_dropWhile_id[of is_id_char r] by simp
  moreover have "rest = [] \<or> \<not> is_id_char (hd rest)"
    using rest hd_dropWhile[of is_id_char r] by auto
  moreover have "is_identifier n"
  proof -
    obtain c r' where "r = c # r'" using r(1) by (cases r) auto
    with r(2) n have "n = c # takeWhile is_id_char r'" "is_id_start c"
      by (auto simp: id_start_is_id_char)
    then show ?thesis
      by (auto simp: is_identifier_def list_all_iff dest: set_takeWhileD)
  qed
  ultimately show ?thesis by simp
qed

lemma named_form_match_id:
  assumes "is_identifier k"
  shows "named_form k (36 # r) =
           (case match_id r of None \<Rightarrow> None | Some (n, rest) \<Rightarrow> if n = k then Some rest else None)"
proof (cases "named_form k (36 # r)")
  case None
  show ?thesis
  proof (cases "match_id r")
    case (Some a)
    obtain n rest where a: "a = (n, rest)" by (cases a)
    have "n \<noteq> k"
    proof
      assume "n = k"
      with match_id_decompose[of r n rest] Some a
      have "r = k @ rest" "rest = [] \<or> \<not> is_id_char (hd rest)" by simp_all
      then have "named_form k (36 # r) = Some rest" by (simp add: named_form_iff)
      with None show False by simp
    qed
    with None Some a show ?thesis by simp
  qed (simp add: None)
next
  case (Some rest)
  then have r: "r = k @ rest" and stop: "rest = [] \<or> \<not> is_id_char (hd rest)"
    by (simp_all add: named_form_iff)
  with match_id_identifier[OF assms stop] Some show ?thesis by simp
qed

lemma alt_braced_iff:
  "alt_braced r = Some (n, rest) \<longleftrightarrow> (\<exists>r1. r = 123 # r1 \<and> match_id r1 = Some (n, 125 # rest))"
  by (cases r) (auto simp: alt_braced_def split: option.splits list.splits if_splits)

lemma braced_form_alt_braced:
  assumes "is_identifier k"
  shows "braced_form k (36 # r) =
           (case alt_braced r of None \<Rightarrow> None | Some (n, rest) \<Rightarrow> if n = k then Some rest else None)"
proof (cases "braced_form k (36 # r)")
  case None
  show ?thesis
  proof (cases "alt_braced r")
    case (Some a)
    obtain n rest where a: "a = (n, rest)" by (cases a)
    have "n \<noteq> k"
    proof
      assume "n = k"
      with Some a obtain r1 where "r = 123 # r1" "match_id r1 = Some (k, 125 # rest)"
        by (auto simp: alt_braced_iff)
      with match_id_decompose[of r1 k "125 # rest"] have "r = 123 # k @ 125 # rest" by simp
      then have "braced_form k (36 # r) = Some rest" by (simp add: braced_form_iff)
      with None show False by simp
    qed
    with None Some a show ?thesis by simp
  qed (simp add: None)
next
  case (Some rest)
  then have r: "r = 123 # k @ 125 # rest" by (simp add: braced_form_iff)
  have "match_id (k @ 125 # rest) = Some (k, 125 # rest)"
    by (rule match_id_identifier[OF assms]) (simp add: not_id_char_specials)
  with r have "alt_braced r = Some (k, rest)" by (simp add: alt_braced_iff)
  with Some show ?thesis by simp
qed

lemma match_id_excludes_braced: "match_id r = Some a \<Longrightarrow> alt_braced r = None"
  by (cases r) (auto simp: match_id_def alt_braced_def not_id_char_specials split: if_splits)

text \<open>The name the pattern finds after a \<open>$\<close> that starts no escape, and the text after it.\<close>

definition token_name :: "pystr \<Rightarrow> (pystr \<times> pystr) option" where
  "token_name r = (case alt_named r of Some a \<Rightarrow> Some a | None \<Rightarrow> alt_braced r)"

lemma placeholder_at_token:
  assumes "list_all is_identifier (map fst kvs)"
  shows "placeholder_at kvs (36 # r) =
           (case token_name r of
              None \<Rightarrow> None
            | Some (n, rest) \<Rightarrow> (case map_of kvs n of None \<Rightarrow> None | Some v \<Rightarrow> Some (v, rest)))"
  using assms
proof (induction kvs)
  case Nil
  then show ?case by (simp split: option.splits)
next
  case (Cons kv kvs)
  obtain k v where kv: "kv = (k, v)" by (cases kv)
  with Cons.prems have k: "is_identifier k" and rest: "list_all is_identifier (map fst kvs)"
    by simp_all
  note IH = Cons.IH[OF rest]
  show ?case
  proof (cases "match_id r")
    case None
    then show ?thesis
      using IH kv
      by (auto simp: named_form_match_id[OF k] braced_form_alt_braced[OF k] token_name_def
               alt_named_def split: option.splits)
  next
    case (Some a)
    obtain n rest where a: "a = (n, rest)" by (cases a)
    show ?thesis
      using IH kv Some a match_id_excludes_braced[OF Some]
      by (auto simp: named_form_match_id[OF k] braced_form_alt_braced[OF k] token_name_def
               alt_named_def split: option.splits)
  qed
qed

lemma placeholder_at_no_dollar: "c \<noteq> 36 \<Longrightarrow> placeholder_at kvs (c # r) = None"
  by (induction kvs) (auto simp: named_form_def braced_form_def strip_prefix_def)

lemma replace_placeholders_no_dollar:
  "list_all (\<lambda>c. c \<noteq> 36) n \<Longrightarrow> replace_placeholders kvs (n @ rest) = n @ replace_placeholders kvs rest"
  by (induction n) (auto simp: placeholder_at_no_dollar)



lemma sub_Nil: "sub f [] = Inr []"
  by (subst sub.simps) (simp add: pattern_match_def)

lemma sub_no_dollar:
  "c \<noteq> 36 \<Longrightarrow> sub f (c # r) = (case sub f r of Inl e \<Rightarrow> Inl e | Inr t \<Rightarrow> Inr (c # t))"
  by (subst sub.simps) (simp add: pattern_match_def)

lemma sub_escaped:
  "sub (convert m) (36 # 36 # r) =
     (case sub (convert m) r of Inl e \<Rightarrow> Inl e | Inr t \<Rightarrow> Inr (36 # t))"
  by (subst sub.simps)
     (simp add: pattern_match_def alt_escaped_def convert_def py_or_def split: sum.splits)

lemma match_id_excludes_escaped: "match_id r = Some a \<Longrightarrow> alt_escaped r = None"
  by (cases r) (auto simp: match_id_def alt_escaped_def not_id_char_specials split: if_splits)

lemma alt_braced_excludes_escaped: "alt_braced r = Some a \<Longrightarrow> alt_escaped r = None"
  by (cases r) (auto simp: alt_braced_def alt_escaped_def split: if_splits)

lemma match_id_nonempty: "match_id r = Some (n, rest) \<Longrightarrow> n \<noteq> []"
  by (cases r) (auto simp: match_id_def split: if_splits)

lemma sub_named:
  assumes "match_id r = Some (n, rest)"
  shows "sub (convert m) (36 # r) =
           (case sub (convert m) rest of
              Inl e \<Rightarrow> Inl e
            | Inr t \<Rightarrow> Inr ((case m n of None \<Rightarrow> 36 # n | Some v \<Rightarrow> v) @ t))"
  using assms match_id_excludes_escaped[OF assms] match_id_nonempty[OF assms]
  by (subst sub.simps)
     (simp add: pattern_match_def alt_named_def convert_def py_or_def
           split: option.splits sum.splits)

lemma sub_braced:
  assumes "match_id r = None" and "alt_braced r = Some (n, rest)"
  shows "sub (convert m) (36 # r) =
           (case sub (convert m) rest of
              Inl e \<Rightarrow> Inl e
            | Inr t \<Rightarrow> Inr ((case m n of None \<Rightarrow> 36 # 123 # n @ [125] | Some v \<Rightarrow> v) @ t))"
proof -
  from assms(2) obtain r1 where "match_id r1 = Some (n, 125 # rest)"
    by (auto simp: alt_braced_iff)
  then have "n \<noteq> []" by (rule match_id_nonempty)
  with assms alt_braced_excludes_escaped[OF assms(2)] show ?thesis
    by (subst sub.simps)
       (simp add: pattern_match_def alt_named_def convert_def py_or_def
           split: option.splits sum.splits)
qed

lemma sub_invalid:
  assumes "alt_escaped r = None" and "match_id r = None" and "alt_braced r = None"
  shows "sub (convert m) (36 # r) =
           (case sub (convert m) r of Inl e \<Rightarrow> Inl e | Inr t \<Rightarrow> Inr (36 # t))"
  using assms
  by (subst sub.simps)
     (simp add: pattern_match_def alt_named_def convert_def py_or_def split: sum.splits)

lemma identifier_no_dollar: "is_identifier n \<Longrightarrow> list_all (\<lambda>c. c \<noteq> 36) n"
  by (cases n) (auto simp: is_identifier_def list_all_iff not_id_char_specials)

lemma sub_convert_replace_placeholders:
  assumes ids: "list_all is_identifier (map fst kvs)"
  shows "sub (convert (map_of kvs)) s = Inr (replace_placeholders kvs s)"
proof (induction s rule: length_induct)
  case (1 s)
  note IH = "1.IH"[rule_format]
  show ?case
  proof (cases s)
    case Nil
    then show ?thesis by (simp add: sub_Nil)
  next
    case (Cons c r)
    have IH_r: "sub (convert (map_of kvs)) r = Inr (replace_placeholders kvs r)"
      by (rule IH) (simp add: Cons)
    show ?thesis
    proof (cases "c = 36")
      case False
      with Cons IH_r show ?thesis
        by (simp add: sub_no_dollar placeholder_at_no_dollar)
    next
      case True
      note c = True
      show ?thesis
      proof (cases "alt_escaped r")
        case (Some a)
        then obtain r' where r: "r = 36 # r'"
          by (cases r) (auto simp: alt_escaped_def split: if_splits)
        have "sub (convert (map_of kvs)) r' = Inr (replace_placeholders kvs r')"
          by (rule IH) (simp add: Cons r)
        with Cons c r show ?thesis by (simp add: sub_escaped)
      next
        case None
        then have no_esc: "\<not> prefix [36, 36] (c # r)"
          by (cases r) (auto simp: alt_escaped_def split: if_splits)
        show ?thesis
        proof (cases "match_id r")
          case (Some a)
          obtain n rest where a: "a = (n, rest)" by (cases a)
          from Some a have m: "match_id r = Some (n, rest)" by simp
          from match_id_decompose[OF m] have r: "r = n @ rest" and n: "is_identifier n"
            by simp_all
          have tok: "token_name r = Some (n, rest)" using m by (simp add: token_name_def alt_named_def)
          have IH_rest: "sub (convert (map_of kvs)) rest = Inr (replace_placeholders kvs rest)"
            by (rule IH) (simp add: Cons r)
          show ?thesis
          proof (cases "map_of kvs n")
            case None
            have "replace_placeholders kvs r = n @ replace_placeholders kvs rest"
              unfolding r by (rule replace_placeholders_no_dollar[OF identifier_no_dollar[OF n]])
            with None Cons c no_esc tok IH_rest show ?thesis
              by (simp add: sub_named[OF m] placeholder_at_token[OF ids])
          next
            case (Some v)
            with Cons c no_esc tok IH_rest show ?thesis
              by (simp add: sub_named[OF m] placeholder_at_token[OF ids])
          qed
        next
          case no_name: None
          show ?thesis
          proof (cases "alt_braced r")
            case None': None
            have tok: "token_name r = None"
              using no_name None' by (simp add: token_name_def alt_named_def)
            with Cons c no_esc IH_r show ?thesis
              by (simp add: sub_invalid[OF None no_name None'] placeholder_at_token[OF ids])
          next
            case (Some a)
            obtain n rest where a: "a = (n, rest)" by (cases a)
            from Some a have b: "alt_braced r = Some (n, rest)" by simp
            then obtain r1 where r1: "r = 123 # r1" and m1: "match_id r1 = Some (n, 125 # rest)"
              by (auto simp: alt_braced_iff)
            from match_id_decompose[OF m1] have r1': "r1 = n @ 125 # rest" and n: "is_identifier n"
              by simp_all
            have r: "r = (123 # n @ [125]) @ rest" using r1 r1' by simp
            have tok: "token_name r = Some (n, rest)"
              using no_name b by (simp add: token_name_def alt_named_def)
            have IH_rest: "sub (convert (map_of kvs)) rest = Inr (replace_placeholders kvs rest)"
              by (rule IH) (simp add: Cons r)
            show ?thesis
            proof (cases "map_of kvs n")
              case None
              have "list_all (\<lambda>c. c \<noteq> 36) (123 # n @ [125])"
                using identifier_no_dollar[OF n] by simp
              then have "replace_placeholders kvs r = (123 # n @ [125]) @ replace_placeholders kvs rest"
                unfolding r by (rule replace_placeholders_no_dollar)
              with None Cons c no_esc tok IH_rest show ?thesis
                by (simp add: sub_braced[OF no_name b] placeholder_at_token[OF ids])
            next
              case (Some v)
              with Cons c no_esc tok IH_rest show ?thesis
                by (simp add: sub_braced[OF no_name b] placeholder_at_token[OF ids])
            qed
          qed
        qed
      qed
    qed
  qed
qed

section \<open>Evaluation and the argument reader\<close>

text \<open>The equations that evaluate the model, and the specification, on a given input.\<close>

lemmas template_eval =
  sub.simps safe_substitute_def pattern_match_def alt_escaped_def alt_named_def alt_braced_def
  match_id_def is_id_start_def is_id_char_def convert_def py_or_def

lemmas args_eval =
  read_args_A_def read_args_B_def and_then_def getitem_def strip_def lstrip_def rstrip_def
  isspace_def replace_def kwargs_A_def kwargs_B_def

lemmas spec_eval =
  placeholders_A_def placeholders_B_def named_form_def braced_form_def strip_prefix_def
  is_id_start_def is_id_char_def strip_def lstrip_def rstrip_def isspace_def replace_def

lemma read_args_A_ok:
  "7 \<le> length args \<Longrightarrow>
     read_args_A args =
       Inr \<lparr>version = args ! 1, template_file_path = args ! 2, generated_file_path = args ! 3,
            hash_mac = strip (args ! 4), hash_mac_arm = strip (args ! 5),
            hash_linux = strip (args ! 6)\<rparr>"
  by (simp add: read_args_A_def and_then_def getitem_def)

lemma read_args_B_ok:
  "5 \<le> length args \<Longrightarrow>
     read_args_B args =
       Inr \<lparr>version64 = replace (str ''v'') (str '''') (args ! 1),
            template_file_path_B = args ! 2, generated_file_path_B = args ! 3,
            hash_64 = strip (args ! 4)\<rparr>"
  by (simp add: read_args_B_def and_then_def getitem_def)

lemma read_args_A_short: "length args < 7 \<Longrightarrow> read_args_A args = Inl IndexError"
  by (simp add: read_args_A_def and_then_def getitem_def)

lemma read_args_B_short: "length args < 5 \<Longrightarrow> read_args_B args = Inl IndexError"
  by (simp add: read_args_B_def and_then_def getitem_def)

lemma identifiers_A: "list_all is_identifier (map fst (placeholders_A args))"
  by (simp add: placeholders_A_def is_identifier_def is_id_start_def is_id_char_def)

lemma identifiers_B: "list_all is_identifier (map fst (placeholders_B args))"
  by (simp add: placeholders_B_def is_identifier_def is_id_start_def is_id_char_def)

lemma substitute_A_replace:
  "7 \<le> length args \<Longrightarrow>
     substitute_A args t = Inr (replace_placeholders (placeholders_A args) t)"
  using sub_convert_replace_placeholders[OF identifiers_A, of args t]
  by (simp add: substitute_A_def read_args_A_ok and_then_def safe_substitute_def kwargs_A_def
        placeholders_A_def)

lemma substitute_B_replace:
  "5 \<le> length args \<Longrightarrow>
     substitute_B args t = Inr (replace_placeholders (placeholders_B args) t)"
  using sub_convert_replace_placeholders[OF identifiers_B, of args t]
  by (simp add: substitute_B_def read_args_B_ok and_then_def safe_substitute_def kwargs_B_def
        placeholders_B_def)

section \<open>The rendered text\<close>

text \<open>
  C1, as the code has it. For every template text and every argument list of sufficient
  length (seven entries of \<^verbatim>\<open>sys.argv\<close> for script A, five for script B), rendering raises
  no error and the rendered text is the template read from left to right in which every
  \<open>$$\<close> is replaced by \<open>$\<close>, every occurrence \<open>$name\<close> or \<open>${name}\<close> of a recognized
  placeholder is replaced by its processed argument value, and all other text, placeholder-like
  tokens of other names included, is left as it is.
\<close>

theorem rendered_text_replaces_placeholders:
  "(7 \<le> length args \<longrightarrow>
      substitute_A args t = Inr (replace_placeholders (placeholders_A args) t)) \<and>
   (5 \<le> length args \<longrightarrow>
      substitute_B args t = Inr (replace_placeholders (placeholders_B args) t))"
  by (simp add: substitute_A_replace substitute_B_replace)

theorem rendered_text_replaces_placeholders_witness:
  "substitute_A
     [str ''packager.py'', str ''1.2.3'', str ''jwtui.rb.template'', str ''jwtui.rb'',
      str '' aa11 '', str ''bb22'', str ''cc33'']
     (str ''v $version ${hash_mac} $$5 ${hash_x} $hash_linux_'') =
     Inr (str ''v 1.2.3 aa11 $5 ${hash_x} $hash_linux_'') \<and>
   substitute_B
     [str ''packager.py'', str ''v1.2.3'', str ''jwtui.json.template'', str ''jwtui.json'',
      str ''dd44'']
     (str ''${version64}: $hash_64 $$ ${hash_mac}'') =
     Inr (str ''1.2.3: dd44 $ ${hash_mac}'')"
  using rendered_text_replaces_placeholders
          [of "[str ''packager.py'', str ''1.2.3'', str ''jwtui.rb.template'', str ''jwtui.rb'',
                str '' aa11 '', str ''bb22'', str ''cc33'']"
              "str ''v $version ${hash_mac} $$5 ${hash_x} $hash_linux_''"]
        rendered_text_replaces_placeholders
          [of "[str ''packager.py'', str ''v1.2.3'', str ''jwtui.json.template'',
                str ''jwtui.json'', str ''dd44'']"
              "str ''${version64}: $hash_64 $$ ${hash_mac}''"]
  by (simp add: spec_eval)

text \<open>
  C1 as worded leaves all text other than the recognized placeholders verbatim; the escape
  \<open>$$\<close> of \<^verbatim>\<open>string.Template\<close> is rendered as one \<open>$\<close>.
\<close>

theorem escape_is_not_verbatim:
  "substitute_A
     [str ''packager.py'', str ''1.2.3'', str ''jwtui.rb.template'', str ''jwtui.rb'',
      str ''aa11'', str ''bb22'', str ''cc33'']
     (str ''price $$5, version ${version}'') = Inr (str ''price $5, version 1.2.3'') \<and>
   replace_verbatim
     (placeholders_A
       [str ''packager.py'', str ''1.2.3'', str ''jwtui.rb.template'', str ''jwtui.rb'',
        str ''aa11'', str ''bb22'', str ''cc33''])
     (str ''price $$5, version ${version}'') = str ''price $$5, version 1.2.3'' \<and>
   substitute_A
     [str ''packager.py'', str ''1.2.3'', str ''jwtui.rb.template'', str ''jwtui.rb'',
      str ''aa11'', str ''bb22'', str ''cc33'']
     (str ''price $$5, version ${version}'') \<noteq>
   Inr (replace_verbatim
     (placeholders_A
       [str ''packager.py'', str ''1.2.3'', str ''jwtui.rb.template'', str ''jwtui.rb'',
        str ''aa11'', str ''bb22'', str ''cc33''])
     (str ''price $$5, version ${version}''))"
  by (simp add: substitute_A_def template_eval args_eval spec_eval)

section \<open>The version of script B\<close>






section \<open>The hash arguments\<close>

lemma strip_decompose:
  "\<exists>l r. s = l @ strip s @ r \<and> list_all isspace l \<and> list_all isspace r"
proof -
  let ?m = "dropWhile isspace s"
  let ?t = "takeWhile isspace (rev ?m)"
  have "rev ?m = ?t @ dropWhile isspace (rev ?m)" by simp
  then have "?m = rev (dropWhile isspace (rev ?m)) @ rev ?t"
    by (metis rev_append rev_rev_ident)
  then have "s = takeWhile isspace s @ strip s @ rev ?t"
    by (simp add: strip_def lstrip_def rstrip_def)
  moreover have "list_all isspace (takeWhile isspace s)"
    by (auto simp: list_all_iff dest: set_takeWhileD)
  moreover have "list_all isspace (rev ?t)"
    by (auto simp: list_all_iff dest: set_takeWhileD)
  ultimately show ?thesis by blast
qed

lemma strip_ends: "strip s = [] \<or> (\<not> isspace (hd (strip s)) \<and> \<not> isspace (last (strip s)))"
proof (cases "strip s = []")
  case True
  then show ?thesis by simp
next
  case False
  let ?m = "dropWhile isspace s"
  let ?d = "dropWhile isspace (rev ?m)"
  from False have d: "?d \<noteq> []" by (simp add: strip_def lstrip_def rstrip_def)
  then have last_ok: "\<not> isspace (hd ?d)" by (rule hd_dropWhile)
  have "last (strip s) = hd ?d"
    using d by (simp add: strip_def lstrip_def rstrip_def last_rev)
  moreover have "\<not> isspace (hd (strip s))"
  proof -
    from d have m: "?m \<noteq> []" by (metis dropWhile.simps(1) rev.simps(1))
    then have hm: "\<not> isspace (hd ?m)" by (rule hd_dropWhile)
    have "rev ?m = takeWhile isspace (rev ?m) @ ?d" by simp
    then have "?m = rev ?d @ rev (takeWhile isspace (rev ?m))"
      by (metis rev_append rev_rev_ident)
    moreover have "rev ?d \<noteq> []" using d by simp
    ultimately have "hd ?m = hd (rev ?d)" by (metis hd_append2)
    with hm show ?thesis by (simp add: strip_def lstrip_def rstrip_def)
  qed
  ultimately show ?thesis using last_ok by simp
qed

text \<open>
  C3. Every hash argument (positions 4 to 6 of script A, position 4 of script B) enters the
  substitution map stripped: the argument is the value between a run of whitespace on the
  left and one on the right, and the value neither starts nor ends with whitespace. The
  input \<open>"  abc123  \n"\<close> is substituted as \<open>abc123\<close>.
\<close>

theorem hashes_are_stripped:
  "(7 \<le> length args \<longrightarrow>
      (\<exists>p. read_args_A args = Inr p \<and>
           map_of (kwargs_A p) (str ''hash_mac'') = Some (strip (args ! 4)) \<and>
           map_of (kwargs_A p) (str ''hash_mac_arm'') = Some (strip (args ! 5)) \<and>
           map_of (kwargs_A p) (str ''hash_linux'') = Some (strip (args ! 6)))) \<and>
   (5 \<le> length args \<longrightarrow>
      (\<exists>p. read_args_B args = Inr p \<and>
           map_of (kwargs_B p) (str ''hash_64'') = Some (strip (args ! 4)))) \<and>
   (\<exists>l r. s = l @ strip s @ r \<and> list_all isspace l \<and> list_all isspace r) \<and>
   (strip s = [] \<or> (\<not> isspace (hd (strip s)) \<and> \<not> isspace (last (strip s)))) \<and>
   strip (str ''  abc123  \<newline>'') = str ''abc123''"
proof -
  have "strip (str ''  abc123  \<newline>'') = str ''abc123''"
    by (simp add: strip_def lstrip_def rstrip_def isspace_def)
  then show ?thesis
    using strip_decompose[of s] strip_ends[of s]
    by (simp add: read_args_A_ok read_args_B_ok kwargs_A_def kwargs_B_def)
qed

theorem hashes_are_stripped_witness:
  "(\<exists>p. read_args_A [str ''packager.py'', str ''1.2.3'', str ''t'', str ''o'',
                     str ''  abc123  \<newline>'', str ''bb22 '', str '' cc33'']  = Inr p \<and>
        map_of (kwargs_A p) (str ''hash_mac'') = Some (str ''abc123'') \<and>
        map_of (kwargs_A p) (str ''hash_mac_arm'') = Some (str ''bb22'') \<and>
        map_of (kwargs_A p) (str ''hash_linux'') = Some (str ''cc33'')) \<and>
   (\<exists>p. read_args_B [str ''packager.py'', str ''v1.2.3'', str ''t'', str ''o'',
                     str ''  abc123  \<newline>'']  = Inr p \<and>
        map_of (kwargs_B p) (str ''hash_64'') = Some (str ''abc123''))"
  using hashes_are_stripped
          [of "[str ''packager.py'', str ''1.2.3'', str ''t'', str ''o'',
                str ''  abc123  \<newline>'', str ''bb22 '', str '' cc33'']"]
        hashes_are_stripped
          [of "[str ''packager.py'', str ''v1.2.3'', str ''t'', str ''o'',
                str ''  abc123  \<newline>'']"]
  by (simp add: strip_def lstrip_def rstrip_def isspace_def)

section \<open>Failures\<close>

text \<open>
  C4. With fewer arguments than the positions accessed (fewer than six positional values
  for script A, fewer than four for script B, the script's name not counted), the run ends
  in \<^verbatim>\<open>IndexError\<close> and has done nothing: no file is created, truncated or written and
  nothing is printed.
\<close>

theorem missing_argument_changes_nothing:
  "(length args < 7 \<longrightarrow> script_A args w = (Inl IndexError, w)) \<and>
   (length args < 5 \<longrightarrow> script_B args w = (Inl IndexError, w))"
  by (simp add: script_A_def script_B_def read_args_A_short read_args_B_short)

theorem missing_argument_changes_nothing_witness:
  "script_A [str ''packager.py'', str ''1.2.3'', str ''t'', str ''o'', str ''aa11'', str ''bb22'']
     (new_world [(str ''t'', str ''${version}''), (str ''o'', str ''old'')]) =
     (Inl IndexError, new_world [(str ''t'', str ''${version}''), (str ''o'', str ''old'')]) \<and>
   script_B [str ''packager.py'', str ''v1.2.3'', str ''t'', str ''o'']
     (new_world [(str ''t'', str ''${version64}''), (str ''o'', str ''old'')]) =
     (Inl IndexError, new_world [(str ''t'', str ''${version64}''), (str ''o'', str ''old'')])"
  using missing_argument_changes_nothing
          [of "[str ''packager.py'', str ''1.2.3'', str ''t'', str ''o'', str ''aa11'', str ''bb22'']"
              "new_world [(str ''t'', str ''${version}''), (str ''o'', str ''old'')]"]
        missing_argument_changes_nothing
          [of "[str ''packager.py'', str ''v1.2.3'', str ''t'', str ''o'']"
              "new_world [(str ''t'', str ''${version64}''), (str ''o'', str ''old'')]"]
  by simp

section \<open>Templates without placeholders\<close>

lemma unescape_Cons:
  "unescape (c # r) = (if prefix [36, 36] (c # r) then 36 # unescape (tl r) else c # unescape r)"
  by (cases r) auto

lemma placeholder_free_tl: "placeholder_free kvs r \<Longrightarrow> placeholder_free kvs (tl r)"
  by (cases r) auto

lemma replace_placeholders_free:
  "placeholder_free kvs s \<Longrightarrow> replace_placeholders kvs s = unescape s"
proof (induction kvs s rule: replace_placeholders.induct)
  case (1 kvs)
  then show ?case by simp
next
  case (2 kvs c r)
  from "2.prems" have here: "placeholder_at kvs (c # r) = None" and r: "placeholder_free kvs r"
    by simp_all
  show ?case
  proof (cases "prefix [36, 36] (c # r)")
    case True
    with "2.IH"(1) placeholder_free_tl[OF r] show ?thesis
      by (simp only: replace_placeholders.simps unescape_Cons if_True)
  next
    case False
    with "2.IH"(2)[OF False here] r here show ?thesis
      by (simp only: replace_placeholders.simps unescape_Cons if_False option.case)
  qed
qed

text \<open>
  C5. When no recognized placeholder of the script stands anywhere in the template, the
  rendered text is the template itself but for the escapes: every \<open>$$\<close> is rendered as the
  single character \<open>$\<close>.
\<close>

theorem template_without_placeholders_is_unescaped:
  "(7 \<le> length args \<and> placeholder_free (placeholders_A args) t \<longrightarrow>
      substitute_A args t = Inr (unescape t)) \<and>
   (5 \<le> length args \<and> placeholder_free (placeholders_B args) t \<longrightarrow>
      substitute_B args t = Inr (unescape t))"
  by (simp add: substitute_A_replace substitute_B_replace replace_placeholders_free)

theorem template_without_placeholders_is_unescaped_witness:
  "substitute_A
     [str ''packager.py'', str ''1.2.3'', str ''t'', str ''o'', str ''aa11'', str ''bb22'',
      str ''cc33'']
     (str ''a $$b ${url} $versions'') = Inr (str ''a $b ${url} $versions'') \<and>
   substitute_B
     [str ''packager.py'', str ''v1.2.3'', str ''t'', str ''o'', str ''dd44'']
     (str ''$$ ${version} $hash_640'') = Inr (str ''$ ${version} $hash_640'')"
  using template_without_placeholders_is_unescaped
          [of "[str ''packager.py'', str ''1.2.3'', str ''t'', str ''o'', str ''aa11'',
                str ''bb22'', str ''cc33'']"
              "str ''a $$b ${url} $versions''"]
        template_without_placeholders_is_unescaped
          [of "[str ''packager.py'', str ''v1.2.3'', str ''t'', str ''o'', str ''dd44'']"
              "str ''$$ ${version} $hash_640''"]
  by (simp add: spec_eval)

section \<open>The two end-to-end examples\<close>

text \<open>
  C7. Script A with the template \<open>hash: ${hash_mac}, version: ${version}\<close> and the
  arguments version \<open>1.0.0\<close>, hash_mac \<open>"deadbeef "\<close>, hash_mac_arm \<open>x\<close> and hash_linux
  \<open>y\<close> renders exactly \<open>hash: deadbeef, version: 1.0.0\<close>, whatever the script's name and
  the two paths are.
\<close>

theorem script_A_example:
  "substitute_A
     [argv0, str ''1.0.0'', template_path, output_path, str ''deadbeef '', str ''x'', str ''y'']
     (str ''hash: ${hash_mac}, version: ${version}'') =
     Inr (str ''hash: deadbeef, version: 1.0.0'')"
  by (simp add: substitute_A_def template_eval args_eval)

text \<open>
  C8. Script B with the template \<open>v=${version64} h=${hash_64}\<close> and the arguments version
  \<open>v3.1.4\<close> and hash_64 \<open>feed\<close> renders exactly \<open>v=3.1.4 h=feed\<close>.
\<close>

theorem script_B_example:
  "substitute_B [argv0, str ''v3.1.4'', template_path, output_path, str ''feed'']
     (str ''v=${version64} h=${hash_64}'') = Inr (str ''v=3.1.4 h=feed'')"
  by (simp add: substitute_B_def template_eval args_eval)

section \<open>The version of script A\<close>

text \<open>
  C10. Script A substitutes its version argument (position 1) as it is: the value of
  \<open>version\<close> in the substitution map is the raw argument, with its whitespace and its
  \<open>v\<close> characters, and the template \<open>${version}\<close> renders as that argument.
\<close>

theorem script_A_version_is_verbatim:
  "7 \<le> length args \<Longrightarrow>
     (\<exists>p. read_args_A args = Inr p \<and> version p = args ! 1 \<and>
          map_of (kwargs_A p) (str ''version'') = Some (args ! 1)) \<and>
     substitute_A args (str ''${version}'') = Inr (args ! 1)"
  by (simp add: substitute_A_replace read_args_A_ok kwargs_A_def placeholders_A_def
        named_form_def braced_form_def strip_prefix_def)

theorem script_A_version_is_verbatim_witness:
  "substitute_A
     [str ''packager.py'', str '' v1.0.0-dev '', str ''t'', str ''o'', str ''aa11'', str ''bb22'',
      str ''cc33'']
     (str ''${version}'') = Inr (str '' v1.0.0-dev '')"
  using script_A_version_is_verbatim
          [of "[str ''packager.py'', str '' v1.0.0-dev '', str ''t'', str ''o'', str ''aa11'',
                str ''bb22'', str ''cc33'']"]
  by simp

section \<open>Whole runs\<close>

lemma files_print [simp]: "files (print s w) = files w"
  by (simp add: print_def emit_def)

lemma readable_print [simp]: "readable (print s w) = readable w"
  by (simp add: print_def emit_def)

lemma writable_print [simp]: "writable (print s w) = writable w"
  by (simp add: print_def emit_def)

lemma events_print [simp]: "events (print s w) = events w @ [Print s]"
  by (simp add: print_def emit_def)









text \<open>
  C9. When the template file is missing or unreadable, the run ends in the \<^verbatim>\<open>OSError\<close>
  of the template's \<^verbatim>\<open>open\<close>, no file is created, truncated or modified, and all the
  run has done is printing the summary and calling that one \<^verbatim>\<open>open\<close>: the output file
  was never opened for writing.
\<close>

theorem unreadable_template_leaves_files:
  "(7 \<le> length args \<and> (files w (args ! 2) = None \<or> \<not> readable w (args ! 2)) \<longrightarrow>
      fst (script_A args w) = Inl (OSError (args ! 2)) \<and>
      files (snd (script_A args w)) = files w \<and>
      (\<exists>ps. events (snd (script_A args w)) = events w @ map Print ps @ [OpenRead (args ! 2)])) \<and>
   (5 \<le> length args \<and> (files w (args ! 2) = None \<or> \<not> readable w (args ! 2)) \<longrightarrow>
      fst (script_B args w) = Inl (OSError (args ! 2)) \<and>
      files (snd (script_B args w)) = files w \<and>
      (\<exists>ps. events (snd (script_B args w)) = events w @ map Print ps @ [OpenRead (args ! 2)]))"
proof (intro conjI impI)
  assume a: "7 \<le> length args \<and> (files w (args ! 2) = None \<or> \<not> readable w (args ! 2))"
  then have len: "7 \<le> length args" by simp
  obtain p where p: "read_args_A args = Inr p" and tp: "template_file_path p = args ! 2"
    using read_args_A_ok[OF len] by simp
  let ?ps = "[str ''Generating formula'', str ''     VERSION: '' @ version p,
              str ''     TEMPLATE PATH: '' @ template_file_path p,
              str ''     SAVING AT: '' @ generated_file_path p,
              str ''     MAC HASH: '' @ hash_mac p,
              str ''     MAC ARM HASH: '' @ hash_mac_arm p,
              str ''     LINUX HASH: '' @ hash_linux p]"
  from a show "fst (script_A args w) = Inl (OSError (args ! 2))"
    by (auto simp: script_A_def p tp open_read_def Let_def split: option.splits)
  from a show "files (snd (script_A args w)) = files w"
    by (auto simp: script_A_def p tp open_read_def emit_def Let_def split: option.splits)
  from a have "events (snd (script_A args w)) = events w @ map Print ?ps @ [OpenRead (args ! 2)]"
    by (auto simp: script_A_def p tp open_read_def emit_def Let_def split: option.splits)
  then show "\<exists>ps. events (snd (script_A args w)) = events w @ map Print ps @ [OpenRead (args ! 2)]"
    by (rule exI)
next
  assume a: "5 \<le> length args \<and> (files w (args ! 2) = None \<or> \<not> readable w (args ! 2))"
  then have len: "5 \<le> length args" by simp
  obtain p where p: "read_args_B args = Inr p" and tp: "template_file_path_B p = args ! 2"
    using read_args_B_ok[OF len] by simp
  let ?ps = "[str ''Generating formula'', str ''     VERSION: '' @ version64 p,
              str ''     TEMPLATE PATH: '' @ template_file_path_B p,
              str ''     SAVING AT: '' @ generated_file_path_B p,
              str ''     HASH: '' @ hash_64 p]"
  from a show "fst (script_B args w) = Inl (OSError (args ! 2))"
    by (auto simp: script_B_def p tp open_read_def Let_def split: option.splits)
  from a show "files (snd (script_B args w)) = files w"
    by (auto simp: script_B_def p tp open_read_def emit_def Let_def split: option.splits)
  from a have "events (snd (script_B args w)) = events w @ map Print ?ps @ [OpenRead (args ! 2)]"
    by (auto simp: script_B_def p tp open_read_def emit_def Let_def split: option.splits)
  then show "\<exists>ps. events (snd (script_B args w)) = events w @ map Print ps @ [OpenRead (args ! 2)]"
    by (rule exI)
qed

theorem unreadable_template_leaves_files_witness:
  "fst (script_A
       [str ''packager.py'', str ''1.2.3'', str ''missing'', str ''o'', str ''aa11'', str ''bb22'',
        str ''cc33'']
       used_world) = Inl (OSError (str ''missing'')) \<and>
   files (snd (script_A
       [str ''packager.py'', str ''1.2.3'', str ''missing'', str ''o'', str ''aa11'', str ''bb22'',
        str ''cc33'']
       used_world)) (str ''o'') = Some (str ''old text'') \<and>
   fst (script_B
       [str ''packager.py'', str ''v1.2.3'', str ''missing'', str ''o'', str ''dd44'']
       used_world) = Inl (OSError (str ''missing'')) \<and>
   files (snd (script_B
       [str ''packager.py'', str ''v1.2.3'', str ''missing'', str ''o'', str ''dd44'']
       used_world)) (str ''o'') = Some (str ''old text'')"
  using unreadable_template_leaves_files
          [of "[str ''packager.py'', str ''1.2.3'', str ''missing'', str ''o'', str ''aa11'',
                str ''bb22'', str ''cc33'']" used_world]
        unreadable_template_leaves_files
          [of "[str ''packager.py'', str ''v1.2.3'', str ''missing'', str ''o'', str ''dd44'']"
              used_world]
  by (simp add: used_world_def)

end
